theory Spec2Isabelle
  imports Main
begin

section \<open>Exceptions\<close>

text \<open>
  The exception classes the three source files raise, as values. \<open>TransportError\<close>
  stands for whatever the language-model backend raises from \<open>llm.call\<close>;
  \<open>AttributeError\<close> is what Python raises when an attribute that was never assigned
  is read.
\<close>

datatype error =
    InvalidOutputValueMismatch string
  | MethodNotImplementedError string
  | APIKeyNotFoundError string
  | MissingModelError string string
  | AttributeError string
  | TransportError string

section \<open>callbacks/base.py\<close>

text \<open>
  The two callback classes. Standard output is the text written so far; \<open>print\<close>
  writes its argument followed by a newline.
\<close>

datatype callback = BaseCallBack | StdoutCallBack

fun on_code :: "callback \<Rightarrow> string \<Rightarrow> string \<Rightarrow> error + string" where
  "on_code BaseCallBack response stdout =
     Inl (MethodNotImplementedError ''Must have implemented this.'')"
| "on_code StdoutCallBack response stdout = Inr (stdout @ response @ [CHR 0x0A])"

text \<open>
  Modelled from the spec: the collaborator that generates a text and notifies the
  callback of it, which is not among the sources. It invokes \<open>on_code\<close> once for the
  text, synchronously, before control returns to its caller; it neither buffers nor
  retries, and what the callback raises is not caught: it reaches the caller in
  place of the text.
\<close>

definition generate :: "callback \<Rightarrow> string \<Rightarrow> error + string" where
  "generate cb text = (case on_code cb text [] of Inl e \<Rightarrow> Inl e | Inr _ \<Rightarrow> Inr text)"

section \<open>llm/azure_openai.py\<close>

text \<open>
  \<open>AzureOpenAI.__init__\<close> tests \<open>self.api_token\<close>, \<open>self.api_base\<close> and
  \<open>self.api_version\<close>, and nothing in its body assigns them: what the three tests read
  is the attribute as the instance has it on entry, which comes from the base class
  \<open>BaseOpenAI\<close>. That class is not among the sources, so the state of the three
  attributes on entry is a parameter of the model. An attribute is unset (reading it
  raises \<open>AttributeError\<close>), \<open>None\<close>, or some other value.
\<close>

datatype attr = Unset | IsNone | Value string

record self_attrs =
  api_token :: attr
  api_base :: attr
  api_version :: attr

text \<open>One entry of \<open>model_list\<close>, and the object once constructed.\<close>

record litellm_params =
  model :: string
  api_key :: "string option"
  params_api_version :: "string option"
  params_api_base :: "string option"

record deployment =
  model_name :: string
  litellm :: litellm_params
  tpm :: int
  rpm :: int

record AzureOpenAI =
  router :: "deployment list"
  is_chat_model :: bool
  engine :: string

text \<open>The f-string \<open>f"azure/{deployment_name}"\<close>: \<open>None\<close> formats as \<open>None\<close>.\<close>

definition azure_model :: "string option \<Rightarrow> string" where
  "azure_model deployment_name =
     ''azure/'' @ (case deployment_name of None \<Rightarrow> ''None'' | Some d \<Rightarrow> d)"

text \<open>
  The constructor up to the fields it sets from its arguments (lines 63 to 98). The
  statements after them pass the proxy setting and the inference parameters on and
  raise none of the errors below.
\<close>

definition AzureOpenAI_init ::
  "self_attrs \<Rightarrow> string option \<Rightarrow> string option \<Rightarrow> string option \<Rightarrow> string option \<Rightarrow> bool
     \<Rightarrow> error + AzureOpenAI" where
  "AzureOpenAI_init self token base version deployment_name chat =
     (let model_list =
        [\<lparr>model_name = ''gpt-3.5-turbo'',
          litellm = \<lparr>model = azure_model deployment_name, api_key = token,
                      params_api_version = version, params_api_base = base\<rparr>,
          tpm = 240000, rpm = 1800\<rparr>]
      in
      case api_token self of
        Unset \<Rightarrow> Inl (AttributeError ''api_token'')
      | IsNone \<Rightarrow> Inl (APIKeyNotFoundError
          (''Azure OpenAI key is required. Please add an environment variable '' @
           ''`OPENAI_API_KEY` or pass `api_token` as a named parameter''))
      | Value _ \<Rightarrow>
      (case api_base self of
        Unset \<Rightarrow> Inl (AttributeError ''api_base'')
      | IsNone \<Rightarrow> Inl (APIKeyNotFoundError
          (''Azure OpenAI base is required. Please add an environment variable '' @
           ''`OPENAI_API_BASE` or pass `api_base` as a named parameter''))
      | Value _ \<Rightarrow>
      (case api_version self of
        Unset \<Rightarrow> Inl (AttributeError ''api_version'')
      | IsNone \<Rightarrow> Inl (APIKeyNotFoundError
          (''Azure OpenAI version is required. Please add an environment variable '' @
           ''`OPENAI_API_VERSION` or pass `api_version` as a named parameter''))
      | Value _ \<Rightarrow>
      (case deployment_name of
        None \<Rightarrow> Inl (MissingModelError ''No deployment name provided.''
                       ''Please include deployment name from Azure dashboard.'')
      | Some d \<Rightarrow> Inr \<lparr>router = model_list, is_chat_model = chat, engine = d\<rparr>))))"

text \<open>The exception a call raised, if it raised one.\<close>

definition raised :: "error + 'a \<Rightarrow> error option" where
  "raised r = (case r of Inl e \<Rightarrow> Some e | Inr _ \<Rightarrow> None)"

section \<open>ee/agents/judge_agent/pipeline/llm_call.py\<close>

subsection \<open>Strings\<close>

text \<open>Python's \<open>sub in s\<close> on strings: \<open>sub\<close> occurs in \<open>s\<close> as a contiguous run.\<close>

fun str_in :: "string \<Rightarrow> string \<Rightarrow> bool" where
  "str_in sub [] = (sub = [])"
| "str_in sub (c # cs) = (take (length sub) (c # cs) = sub \<or> str_in sub cs)"

text \<open>
  The message handed to the logger: the f-string of lines 39 to 41, whose second and
  third lines are indented by twenty spaces.
\<close>

definition llm_response_message :: "string \<Rightarrow> string" where
  "llm_response_message response =
     ''LLM response:'' @ [CHR 0x0A] @ replicate 20 (CHR '' '') @ response @
     [CHR 0x0A] @ replicate 20 (CHR '' '')"

subsection \<open>The collaborators\<close>

text \<open>
  The backend is opaque: \<open>llm input k\<close> is what the \<open>k\<close>-th call of
  \<open>config.llm.call\<close> (counted from 0 over the life of the backend) does when given
  \<open>input\<close>: it returns a text or raises.
\<close>

record 'i PipelineConfig =
  max_retries :: int
  llm :: "'i \<Rightarrow> nat \<Rightarrow> error + string"

record 'i PipelineContext =
  config :: "'i PipelineConfig"
  log :: "(string \<times> string) list"

text \<open>
  Modelled from the spec: \<open>PipelineContext.add\<close>, whose class is not among the sources.
  \<open>add(key, value)\<close> appends the entry to the log; the log is append-only, keeps
  insertion order and allows duplicate keys.
\<close>

definition add :: "string \<Rightarrow> string \<Rightarrow> 'i PipelineContext \<Rightarrow> 'i PipelineContext" where
  "add key val ctx = ctx\<lparr>log := log ctx @ [(key, val)]\<rparr>"

text \<open>
  Modelled from the spec: \<open>LogicUnitOutput\<close>, whose class is not among the sources. Its
  four fields are the constructor's four positional arguments: the step's logical
  result, the success flag, the message and the payload dictionary.
\<close>

record LogicUnitOutput =
  result :: bool
  success :: bool
  message :: string
  payload :: "(string \<times> string) list"

text \<open>
  What \<open>execute\<close> acts on: the pipeline context, the messages the logger has received,
  the number of calls the backend has received, and the order in which the three
  collaborators were addressed.
\<close>

datatype event = LlmCall nat | LoggerLog string | ContextAdd string string

record 'i world =
  pipeline_context :: "'i PipelineContext"
  logger :: "string list"
  llm_calls :: nat
  events :: "event list"

text \<open>The effect of one call of each collaborator on that state.\<close>

definition llm_called :: "'i world \<Rightarrow> 'i world" where
  "llm_called w = w\<lparr>llm_calls := Suc (llm_calls w), events := events w @ [LlmCall (llm_calls w)]\<rparr>"

definition logger_log :: "string \<Rightarrow> 'i world \<Rightarrow> 'i world" where
  "logger_log msg w = w\<lparr>logger := logger w @ [msg], events := events w @ [LoggerLog msg]\<rparr>"

definition context_add :: "string \<Rightarrow> string \<Rightarrow> 'i world \<Rightarrow> 'i world" where
  "context_add key val w =
     w\<lparr>pipeline_context := add key val (pipeline_context w),
       events := events w @ [ContextAdd key val]\<rparr>"

subsection \<open>LLMCall.execute\<close>

text \<open>
  The body of the \<open>try\<close> (lines 44 to 59): it raises, or returns the output together
  with the state as \<open>pipeline_context.add\<close> left it.
\<close>

definition try_body :: "string \<Rightarrow> 'i world \<Rightarrow> error + (LogicUnitOutput \<times> 'i world)" where
  "try_body response w =
     (case (if str_in ''<Yes>'' response then Inr True
            else if str_in ''<No>'' response then Inr False
            else Inl (InvalidOutputValueMismatch ''Invalid response of LLM Call'')) of
        Inl e \<Rightarrow> Inl e
      | Inr res \<Rightarrow>
          Inr (\<lparr>result = res, success = True, message = ''Code Generated Successfully'',
                payload = [(''content_type'', ''string''), (''value'', response)]\<rparr>,
               context_add ''llm_call'' response w))"

text \<open>
  The \<open>while\<close> loop (lines 35 to 64), from the value \<open>retry_count\<close> has at the loop
  test. The call of the backend and the call of the logger are outside the \<open>try\<close>;
  the \<open>except\<close> clause re-raises on the last allowed attempt and counts a retry
  otherwise. When the loop test fails the method falls off its end and returns
  \<open>None\<close>.
\<close>

function execute_loop ::
  "'i \<Rightarrow> int \<Rightarrow> 'i world \<Rightarrow> (error + LogicUnitOutput option) \<times> 'i world" where
  "execute_loop input retry_count w =
     (if retry_count \<le> max_retries (config (pipeline_context w)) then
        (case llm (config (pipeline_context w)) input (llm_calls w) of
           Inl e \<Rightarrow> (Inl e, llm_called w)
         | Inr response \<Rightarrow>
             (let w1 = logger_log (llm_response_message response) (llm_called w)
              in case try_body response w1 of
                   Inr (out, w2) \<Rightarrow> (Inr (Some out), w2)
                 | Inl e \<Rightarrow>
                     if retry_count = max_retries (config (pipeline_context w1)) then (Inl e, w1)
                     else execute_loop input (retry_count + 1) w1))
      else (Inr None, w))"
  by pat_completeness auto
termination
  by (relation "measure (\<lambda>(input, retry_count, w).
        nat (max_retries (config (pipeline_context w)) + 1 - retry_count))")
     (auto simp: logger_log_def llm_called_def)

declare execute_loop.simps [simp del]

definition execute :: "'i \<Rightarrow> 'i world \<Rightarrow> (error + LogicUnitOutput option) \<times> 'i world" where
  "execute input w = execute_loop input 0 w"

subsection \<open>Vocabulary of the properties\<close>

text \<open>A response that contains neither verdict marker.\<close>

definition no_marker :: "string \<Rightarrow> bool" where
  "no_marker response = (\<not> str_in ''<Yes>'' response \<and> \<not> str_in ''<No>'' response)"

text \<open>
  The texts the backend returned on its calls number \<open>a\<close> up to, not including,
  \<open>b\<close>, in the order of the calls; a call that raised returned none.
\<close>

definition returned_texts :: "(nat \<Rightarrow> error + string) \<Rightarrow> nat \<Rightarrow> nat \<Rightarrow> string list" where
  "returned_texts f a b = concat (map (\<lambda>k. case f k of Inl _ \<Rightarrow> [] | Inr r \<Rightarrow> [r]) [a..<b])"

text \<open>
  The events of the backend's calls number \<open>a\<close> up to, not including, \<open>b\<close>: each
  call, followed by the logger's message when the call returned a text.
\<close>

definition attempt_events :: "(nat \<Rightarrow> error + string) \<Rightarrow> nat \<Rightarrow> nat \<Rightarrow> event list" where
  "attempt_events f a b =
     concat (map (\<lambda>k. case f k of
                         Inl _ \<Rightarrow> [LlmCall k]
                       | Inr r \<Rightarrow> [LlmCall k, LoggerLog (llm_response_message r)]) [a..<b])"

text \<open>The event with which a run ends: the entry added to the context, if it returned an output.\<close>

definition final_events :: "error + LogicUnitOutput option \<Rightarrow> event list" where
  "final_events res =
     (case res of
        Inr (Some out) \<Rightarrow>
          (case map_of (payload out) ''value'' of
             Some v \<Rightarrow> [ContextAdd ''llm_call'' v]
           | None \<Rightarrow> [])
      | _ \<Rightarrow> [])"

text \<open>
  Scenarios: a backend that always returns the same text, one that returns the texts of
  a list in turn and fails once they are used up, and the state at the start of a run
  with a given retry bound and backend.
\<close>

definition always :: "string \<Rightarrow> unit \<Rightarrow> nat \<Rightarrow> error + string" where
  "always r input k = Inr r"

definition scripted :: "string list \<Rightarrow> unit \<Rightarrow> nat \<Rightarrow> error + string" where
  "scripted rs input k =
     (if k < length rs then Inr (rs ! k) else Inl (TransportError ''connection reset''))"

definition start :: "int \<Rightarrow> (unit \<Rightarrow> nat \<Rightarrow> error + string) \<Rightarrow> unit world" where
  "start k backend =
     \<lparr>pipeline_context = \<lparr>config = \<lparr>max_retries = k, llm = backend\<rparr>, log = []\<rparr>,
      logger = [], llm_calls = 0, events = []\<rparr>"

section \<open>Auxiliary facts\<close>

subsection \<open>Substring test and the body of the try\<close>

lemma str_in_iff: "str_in sub s \<longleftrightarrow> (\<exists>p q. s = p @ sub @ q)"
proof (induction s)
  case Nil
  then show ?case by auto
next
  case (Cons c cs)
  show ?case
  proof
    assume "str_in sub (c # cs)"
    then consider "take (length sub) (c # cs) = sub" | "str_in sub cs" by auto
    then show "\<exists>p q. c # cs = p @ sub @ q"
    proof cases
      case 1
      then have "c # cs = [] @ sub @ drop (length sub) (c # cs)"
        by (metis append_Nil append_take_drop_id)
      then show ?thesis by blast
    next
      case 2
      then obtain p q where "cs = p @ sub @ q" using Cons.IH by blast
      then have "c # cs = (c # p) @ sub @ q" by simp
      then show ?thesis by blast
    qed
  next
    assume "\<exists>p q. c # cs = p @ sub @ q"
    then obtain p q where pq: "c # cs = p @ sub @ q" by blast
    show "str_in sub (c # cs)"
    proof (cases p)
      case Nil
      then have "take (length sub) (c # cs) = sub" using pq by simp
      then show ?thesis by simp
    next
      case (Cons a p')
      then have "cs = p' @ sub @ q" using pq by simp
      then have "str_in sub cs" using Cons.IH by blast
      then show ?thesis by simp
    qed
  qed
qed

lemma llm_response_message_holds: "str_in response (llm_response_message response)"
  unfolding str_in_iff llm_response_message_def
  by (intro exI [of _ "''LLM response:'' @ [CHR 0x0A] @ replicate 20 (CHR '' '')"]
            exI [of _ "[CHR 0x0A] @ replicate 20 (CHR '' '')"]) simp

lemma world_effects [simp]:
  "pipeline_context (llm_called w) = pipeline_context w"
  "logger (llm_called w) = logger w"
  "llm_calls (llm_called w) = Suc (llm_calls w)"
  "events (llm_called w) = events w @ [LlmCall (llm_calls w)]"
  "pipeline_context (logger_log msg w) = pipeline_context w"
  "logger (logger_log msg w) = logger w @ [msg]"
  "llm_calls (logger_log msg w) = llm_calls w"
  "events (logger_log msg w) = events w @ [LoggerLog msg]"
  "pipeline_context (context_add key val w) = add key val (pipeline_context w)"
  "logger (context_add key val w) = logger w"
  "llm_calls (context_add key val w) = llm_calls w"
  "events (context_add key val w) = events w @ [ContextAdd key val]"
  by (simp_all add: llm_called_def logger_log_def context_add_def)

lemma add_simps [simp]:
  "config (add key val ctx) = config ctx"
  "log (add key val ctx) = log ctx @ [(key, val)]"
  by (simp_all add: add_def)

lemma try_body_yes:
  "str_in ''<Yes>'' r \<Longrightarrow> try_body r w =
     Inr (\<lparr>result = True, success = True, message = ''Code Generated Successfully'',
           payload = [(''content_type'', ''string''), (''value'', r)]\<rparr>,
          context_add ''llm_call'' r w)"
  by (simp add: try_body_def)

lemma try_body_no:
  "\<not> str_in ''<Yes>'' r \<Longrightarrow> str_in ''<No>'' r \<Longrightarrow> try_body r w =
     Inr (\<lparr>result = False, success = True, message = ''Code Generated Successfully'',
           payload = [(''content_type'', ''string''), (''value'', r)]\<rparr>,
          context_add ''llm_call'' r w)"
  by (simp add: try_body_def)

lemma try_body_no_marker:
  "no_marker r \<Longrightarrow> try_body r w = Inl (InvalidOutputValueMismatch ''Invalid response of LLM Call'')"
  by (simp add: try_body_def no_marker_def)

lemma try_body_Inr:
  "try_body r w = Inr (out, w') \<Longrightarrow>
     w' = context_add ''llm_call'' r w \<and> success out \<and>
     message out = ''Code Generated Successfully'' \<and>
     payload out = [(''content_type'', ''string''), (''value'', r)] \<and>
     result out = str_in ''<Yes>'' r \<and> \<not> no_marker r"
  by (auto simp: try_body_def no_marker_def split: if_splits)

subsection \<open>One turn of the loop\<close>

lemma execute_loop_done:
  "\<not> n \<le> max_retries (config (pipeline_context w)) \<Longrightarrow> execute_loop input n w = (Inr None, w)"
  by (subst execute_loop.simps) simp

lemma execute_loop_raise:
  "n \<le> max_retries (config (pipeline_context w)) \<Longrightarrow>
   llm (config (pipeline_context w)) input (llm_calls w) = Inl e \<Longrightarrow>
   execute_loop input n w = (Inl e, llm_called w)"
  by (subst execute_loop.simps) simp

lemma execute_loop_return:
  "n \<le> max_retries (config (pipeline_context w)) \<Longrightarrow>
   llm (config (pipeline_context w)) input (llm_calls w) = Inr r \<Longrightarrow>
   try_body r (logger_log (llm_response_message r) (llm_called w)) = Inr (out, w2) \<Longrightarrow>
   execute_loop input n w = (Inr (Some out), w2)"
  by (subst execute_loop.simps) simp

lemma execute_loop_fail:
  "n = max_retries (config (pipeline_context w)) \<Longrightarrow>
   llm (config (pipeline_context w)) input (llm_calls w) = Inr r \<Longrightarrow>
   try_body r (logger_log (llm_response_message r) (llm_called w)) = Inl e \<Longrightarrow>
   execute_loop input n w = (Inl e, logger_log (llm_response_message r) (llm_called w))"
  by (subst execute_loop.simps) simp

lemma execute_loop_retry:
  "n < max_retries (config (pipeline_context w)) \<Longrightarrow>
   llm (config (pipeline_context w)) input (llm_calls w) = Inr r \<Longrightarrow>
   try_body r (logger_log (llm_response_message r) (llm_called w)) = Inl e \<Longrightarrow>
   execute_loop input n w =
     execute_loop input (n + 1) (logger_log (llm_response_message r) (llm_called w))"
  by (subst execute_loop.simps) simp

text \<open>
  Induction over the turns of the loop, as a rule about the outcome: one case for each
  way a turn ends.
\<close>

lemma execute_loop_outcome [case_names fallthrough raises returns fails retries]:
  fixes P :: "int \<Rightarrow> 'i world \<Rightarrow> (error + LogicUnitOutput option) \<times> 'i world \<Rightarrow> bool"
  assumes "\<And>n w. \<not> n \<le> max_retries (config (pipeline_context w)) \<Longrightarrow> P n w (Inr None, w)"
    and "\<And>n w e. n \<le> max_retries (config (pipeline_context w)) \<Longrightarrow>
           llm (config (pipeline_context w)) input (llm_calls w) = Inl e \<Longrightarrow>
           P n w (Inl e, llm_called w)"
    and "\<And>n w r out w1. n \<le> max_retries (config (pipeline_context w)) \<Longrightarrow>
           llm (config (pipeline_context w)) input (llm_calls w) = Inr r \<Longrightarrow>
           w1 = logger_log (llm_response_message r) (llm_called w) \<Longrightarrow>
           try_body r w1 = Inr (out, context_add ''llm_call'' r w1) \<Longrightarrow>
           P n w (Inr (Some out), context_add ''llm_call'' r w1)"
    and "\<And>n w r e w1. n = max_retries (config (pipeline_context w)) \<Longrightarrow>
           llm (config (pipeline_context w)) input (llm_calls w) = Inr r \<Longrightarrow>
           w1 = logger_log (llm_response_message r) (llm_called w) \<Longrightarrow>
           try_body r w1 = Inl e \<Longrightarrow>
           P n w (Inl e, w1)"
    and "\<And>n w r e w1. n < max_retries (config (pipeline_context w)) \<Longrightarrow>
           llm (config (pipeline_context w)) input (llm_calls w) = Inr r \<Longrightarrow>
           w1 = logger_log (llm_response_message r) (llm_called w) \<Longrightarrow>
           try_body r w1 = Inl e \<Longrightarrow>
           P (n + 1) w1 (execute_loop input (n + 1) w1) \<Longrightarrow>
           P n w (execute_loop input (n + 1) w1)"
  shows "P n w (execute_loop input n w)"
  using assms
proof (induction input n w rule: execute_loop.induct)
  case (1 input n w)
  let ?max = "max_retries (config (pipeline_context w))"
  let ?w1 = "\<lambda>r. logger_log (llm_response_message r) (llm_called w)"
  show ?case
  proof (cases "n \<le> ?max")
    case False
    have "P n w (Inr None, w)" by (rule "1.prems"(1) [OF False])
    then show ?thesis by (simp only: execute_loop_done [OF False])
  next
    case True
    note le = this
    show ?thesis
    proof (cases "llm (config (pipeline_context w)) input (llm_calls w)")
      case (Inl e)
      have "P n w (Inl e, llm_called w)"
        by (rule "1.prems"(2) [OF le Inl])
      then show ?thesis by (simp only: execute_loop_raise [OF le Inl])
    next
      case (Inr r)
      note resp = this
      show ?thesis
      proof (cases "try_body r (?w1 r)")
        case (Inr p)
        obtain out w2 where p: "p = (out, w2)" by (cases p)
        have ok: "try_body r (?w1 r) = Inr (out, w2)"
          using Inr p by simp
        have w2: "w2 = context_add ''llm_call'' r (?w1 r)"
          using try_body_Inr [OF ok] by simp
        have "P n w (Inr (Some out), context_add ''llm_call'' r (?w1 r))"
          using ok unfolding w2 by (rule "1.prems"(3) [OF le resp refl])
        then show ?thesis by (simp only: execute_loop_return [OF le resp ok] w2)
      next
        case (Inl e)
        note bad = this
        show ?thesis
        proof (cases "n = ?max")
          case True
          have "P n w (Inl e, ?w1 r)"
            by (rule "1.prems"(4) [OF True resp refl bad])
          then show ?thesis by (simp only: execute_loop_fail [OF True resp bad])
        next
          case False
          then have lt: "n < ?max" using le by simp
          have ne1: "n \<noteq> max_retries (config (pipeline_context (?w1 r)))"
            using False by simp
          have "P (n + 1) (?w1 r) (execute_loop input (n + 1) (?w1 r))"
            by (rule "1.IH" [OF le resp refl bad ne1 "1.prems"])
          then have "P n w (execute_loop input (n + 1) (?w1 r))"
            by (rule "1.prems"(5) [OF lt resp refl bad])
          then show ?thesis by (simp only: execute_loop_retry [OF lt resp bad])
        qed
      qed
    qed
  qed
qed

subsection \<open>What every run keeps\<close>

lemma execute_loop_frame:
  "config (pipeline_context (snd (execute_loop input n w))) = config (pipeline_context w)
   \<and> llm_calls w \<le> llm_calls (snd (execute_loop input n w))"
  by (rule execute_loop_outcome [where P = "\<lambda>n w res.
    config (pipeline_context (snd res)) = config (pipeline_context w)
    \<and> llm_calls w \<le> llm_calls (snd res)"]) auto

lemma execute_loop_calls_mono:
  "llm_calls w \<le> llm_calls (snd (execute_loop input n w))"
  using execute_loop_frame [of input n w] by simp

lemma execute_loop_calls:
  "n \<le> max_retries (config (pipeline_context w)) \<Longrightarrow>
   Suc (llm_calls w) \<le> llm_calls (snd (execute_loop input n w))"
proof (rule execute_loop_outcome [where P = "\<lambda>n w res.
    n \<le> max_retries (config (pipeline_context w)) \<longrightarrow> Suc (llm_calls w) \<le> llm_calls (snd res)",
    rule_format], goal_cases)
  case (5 n w r e w1)
  have "llm_calls w1 \<le> llm_calls (snd (execute_loop input (n + 1) w1))"
    by (rule execute_loop_calls_mono)
  then show ?case using 5 by simp
qed auto

lemma returned_texts_empty: "returned_texts f a a = []"
  by (simp add: returned_texts_def)

lemma returned_texts_first_Inr:
  "f a = Inr r \<Longrightarrow> a < b \<Longrightarrow> returned_texts f a b = r # returned_texts f (Suc a) b"
  by (simp add: returned_texts_def upt_conv_Cons)

lemma returned_texts_first_Inl:
  "f a = Inl e \<Longrightarrow> a < b \<Longrightarrow> returned_texts f a b = returned_texts f (Suc a) b"
  by (simp add: returned_texts_def upt_conv_Cons)

lemma attempt_events_empty: "attempt_events f a a = []"
  by (simp add: attempt_events_def)

lemma attempt_events_first_Inr:
  "f a = Inr r \<Longrightarrow> a < b \<Longrightarrow>
   attempt_events f a b = LlmCall a # LoggerLog (llm_response_message r) # attempt_events f (Suc a) b"
  by (simp add: attempt_events_def upt_conv_Cons)

lemma attempt_events_first_Inl:
  "f a = Inl e \<Longrightarrow> a < b \<Longrightarrow> attempt_events f a b = LlmCall a # attempt_events f (Suc a) b"
  by (simp add: attempt_events_def upt_conv_Cons)

lemma execute_loop_logger:
  "logger (snd (execute_loop input n w)) =
     logger w @ map llm_response_message
       (returned_texts (llm (config (pipeline_context w)) input) (llm_calls w)
          (llm_calls (snd (execute_loop input n w))))"
proof (rule execute_loop_outcome [where P = "\<lambda>n w res.
    logger (snd res) = logger w @ map llm_response_message
       (returned_texts (llm (config (pipeline_context w)) input) (llm_calls w)
          (llm_calls (snd res)))"], goal_cases)
  case (1 n w)
  then show ?case by (simp add: returned_texts_empty)
next
  case (2 n w e)
  then show ?case by (simp add: returned_texts_first_Inl returned_texts_empty)
next
  case (3 n w r out w1)
  then show ?case by (simp add: returned_texts_first_Inr returned_texts_empty)
next
  case (4 n w r e w1)
  then show ?case by (simp add: returned_texts_first_Inr returned_texts_empty)
next
  case (5 n w r e w1)
  have "llm_calls w1 \<le> llm_calls (snd (execute_loop input (n + 1) w1))"
    by (rule execute_loop_calls_mono)
  then have "llm_calls w < llm_calls (snd (execute_loop input (n + 1) w1))"
    using 5(3) by simp
  then show ?case
    using 5 by (simp add: returned_texts_first_Inr)
qed

lemma final_events_simps [simp]:
  "final_events (Inl e) = []"
  "final_events (Inr None) = []"
  by (simp_all add: final_events_def)

lemma execute_loop_events:
  "events (snd (execute_loop input n w)) =
     events w @
     attempt_events (llm (config (pipeline_context w)) input) (llm_calls w)
       (llm_calls (snd (execute_loop input n w))) @
     final_events (fst (execute_loop input n w))"
proof (rule execute_loop_outcome [where P = "\<lambda>n w res.
    events (snd res) = events w @
     attempt_events (llm (config (pipeline_context w)) input) (llm_calls w) (llm_calls (snd res)) @
     final_events (fst res)"], goal_cases)
  case (1 n w)
  then show ?case by (simp add: attempt_events_empty)
next
  case (2 n w e)
  then show ?case by (simp add: attempt_events_first_Inl attempt_events_empty)
next
  case (3 n w r out w1)
  have "payload out = [(''content_type'', ''string''), (''value'', r)]"
    using try_body_Inr [OF 3(4)] by simp
  then have "final_events (Inr (Some out)) = [ContextAdd ''llm_call'' r]"
    by (simp add: final_events_def)
  then show ?case using 3 by (simp add: attempt_events_first_Inr attempt_events_empty)
next
  case (4 n w r e w1)
  then show ?case by (simp add: attempt_events_first_Inr attempt_events_empty)
next
  case (5 n w r e w1)
  have "llm_calls w1 \<le> llm_calls (snd (execute_loop input (n + 1) w1))"
    by (rule execute_loop_calls_mono)
  then have "llm_calls w < llm_calls (snd (execute_loop input (n + 1) w1))"
    using 5(3) by simp
  then show ?case
    using 5 by (simp add: attempt_events_first_Inr)
qed

lemma execute_loop_error_context:
  "fst (execute_loop input n w) = Inl e \<Longrightarrow>
   pipeline_context (snd (execute_loop input n w)) = pipeline_context w"
proof (rule execute_loop_outcome [where P = "\<lambda>n w res.
    (\<forall>e. fst res = Inl e \<longrightarrow> pipeline_context (snd res) = pipeline_context w)",
    rule_format], goal_cases)
  case (5 n w r e w1)
  then show ?case by simp
qed auto

lemma execute_loop_success:
  "fst (execute_loop input n w) = Inr (Some out) \<Longrightarrow>
   \<exists>r. llm (config (pipeline_context w)) input (llm_calls (snd (execute_loop input n w)) - 1) = Inr r
     \<and> llm_calls w < llm_calls (snd (execute_loop input n w))
     \<and> log (pipeline_context (snd (execute_loop input n w))) =
         log (pipeline_context w) @ [(''llm_call'', r)]
     \<and> success out \<and> message out = ''Code Generated Successfully''
     \<and> payload out = [(''content_type'', ''string''), (''value'', r)]"
proof (rule execute_loop_outcome [where P = "\<lambda>n w res.
    (\<forall>out. fst res = Inr (Some out) \<longrightarrow>
     (\<exists>r. llm (config (pipeline_context w)) input (llm_calls (snd res) - 1) = Inr r
     \<and> llm_calls w < llm_calls (snd res)
     \<and> log (pipeline_context (snd res)) = log (pipeline_context w) @ [(''llm_call'', r)]
     \<and> success out \<and> message out = ''Code Generated Successfully''
     \<and> payload out = [(''content_type'', ''string''), (''value'', r)]))",
    rule_format], goal_cases)
  case (3 n w r out w1 out')
  then show ?case by (auto dest!: try_body_Inr)
next
  case (5 n w r e w1 out)
  then show ?case by auto
qed auto

subsection \<open>Reaching an attempt\<close>

lemma execute_loop_skip:
  "(\<forall>j<m. \<exists>r. llm (config (pipeline_context w)) input (llm_calls w + j) = Inr r \<and> no_marker r) \<Longrightarrow>
   n + int m \<le> max_retries (config (pipeline_context w)) \<Longrightarrow>
   \<exists>w'. execute_loop input n w = execute_loop input (n + int m) w'
      \<and> pipeline_context w' = pipeline_context w \<and> llm_calls w' = llm_calls w + m"
proof (induction m arbitrary: n w)
  case 0
  then show ?case by (intro exI [of _ w]) simp
next
  case (Suc m)
  from Suc.prems(1) obtain r where r: "llm (config (pipeline_context w)) input (llm_calls w) = Inr r"
    "no_marker r" by force
  let ?w1 = "logger_log (llm_response_message r) (llm_called w)"
  have lt: "n < max_retries (config (pipeline_context w))" using Suc.prems(2) by simp
  have step: "execute_loop input n w = execute_loop input (n + 1) ?w1"
    by (rule execute_loop_retry [OF lt r(1) try_body_no_marker [OF r(2)]])
  have "\<forall>j<m. \<exists>r. llm (config (pipeline_context ?w1)) input (llm_calls ?w1 + j) = Inr r \<and> no_marker r"
  proof (intro allI impI)
    fix j assume "j < m"
    then have "Suc j < Suc m" by simp
    then show "\<exists>r. llm (config (pipeline_context ?w1)) input (llm_calls ?w1 + j) = Inr r \<and> no_marker r"
      using Suc.prems(1) [rule_format, of "Suc j"] by simp
  qed
  moreover have "n + 1 + int m \<le> max_retries (config (pipeline_context ?w1))"
    using Suc.prems(2) by simp
  ultimately obtain w' where w': "execute_loop input (n + 1) ?w1 = execute_loop input (n + 1 + int m) w'"
    "pipeline_context w' = pipeline_context ?w1" "llm_calls w' = llm_calls ?w1 + m"
    using Suc.IH [of ?w1 "n + 1"] by blast
  have eq: "n + 1 + int m = n + int (Suc m)" by simp
  have "execute_loop input n w = execute_loop input (n + int (Suc m)) w'"
    by (simp only: step w'(1) eq)
  moreover have "pipeline_context w' = pipeline_context w" using w'(2) by simp
  moreover have "llm_calls w' = llm_calls w + Suc m" using w'(3) by simp
  ultimately show ?case by blast
qed

lemma execute_reaches:
  assumes "\<forall>j<i. \<exists>r. llm (config (pipeline_context w)) input (llm_calls w + j) = Inr r \<and> no_marker r"
    and "int i \<le> max_retries (config (pipeline_context w))"
  obtains w' where "execute input w = execute_loop input (int i) w'"
    "pipeline_context w' = pipeline_context w" "llm_calls w' = llm_calls w + i"
  using execute_loop_skip [of i w input 0] assms unfolding execute_def by auto

lemma try_body_marker:
  "\<not> no_marker r \<Longrightarrow> try_body r w =
     Inr (\<lparr>result = str_in ''<Yes>'' r, success = True, message = ''Code Generated Successfully'',
           payload = [(''content_type'', ''string''), (''value'', r)]\<rparr>,
          context_add ''llm_call'' r w)"
  by (auto simp: try_body_def no_marker_def)

lemma execute_attempt_returns:
  assumes "\<forall>j<i. \<exists>r. llm (config (pipeline_context w)) input (llm_calls w + j) = Inr r \<and> no_marker r"
    and "int i \<le> max_retries (config (pipeline_context w))"
    and "llm (config (pipeline_context w)) input (llm_calls w + i) = Inr response"
    and "\<not> no_marker response"
  shows "fst (execute input w) =
      Inr (Some \<lparr>result = str_in ''<Yes>'' response, success = True,
                 message = ''Code Generated Successfully'',
                 payload = [(''content_type'', ''string''), (''value'', response)]\<rparr>)"
    and "llm_calls (snd (execute input w)) = llm_calls w + i + 1"
    and "log (pipeline_context (snd (execute input w))) =
      log (pipeline_context w) @ [(''llm_call'', response)]"
proof -
  obtain w' where w': "execute input w = execute_loop input (int i) w'"
    "pipeline_context w' = pipeline_context w" "llm_calls w' = llm_calls w + i"
    using assms(1,2) by (rule execute_reaches)
  let ?w1 = "logger_log (llm_response_message response) (llm_called w')"
  let ?out = "\<lparr>result = str_in ''<Yes>'' response, success = True,
                 message = ''Code Generated Successfully'',
                 payload = [(''content_type'', ''string''), (''value'', response)]\<rparr>"
  have le: "int i \<le> max_retries (config (pipeline_context w'))" using assms(2) w'(2) by simp
  have resp: "llm (config (pipeline_context w')) input (llm_calls w') = Inr response"
    using assms(3) w'(2,3) by simp
  have "execute_loop input (int i) w' = (Inr (Some ?out), context_add ''llm_call'' response ?w1)"
    by (rule execute_loop_return [OF le resp try_body_marker [OF assms(4)]])
  then have eq: "execute input w = (Inr (Some ?out), context_add ''llm_call'' response ?w1)"
    using w'(1) by simp
  show "fst (execute input w) = Inr (Some ?out)" using eq by simp
  show "llm_calls (snd (execute input w)) = llm_calls w + i + 1" using eq w'(3) by simp
  show "log (pipeline_context (snd (execute input w))) =
      log (pipeline_context w) @ [(''llm_call'', response)]" using eq w'(2) by simp
qed

lemma execute_attempt_fails:
  assumes "\<forall>j<i. \<exists>r. llm (config (pipeline_context w)) input (llm_calls w + j) = Inr r \<and> no_marker r"
    and "int i = max_retries (config (pipeline_context w))"
    and "llm (config (pipeline_context w)) input (llm_calls w + i) = Inr response"
    and "no_marker response"
  shows "fst (execute input w) = Inl (InvalidOutputValueMismatch ''Invalid response of LLM Call'')"
    and "llm_calls (snd (execute input w)) = llm_calls w + i + 1"
    and "last (logger (snd (execute input w))) = llm_response_message response"
proof -
  have le: "int i \<le> max_retries (config (pipeline_context w))" using assms(2) by simp
  obtain w' where w': "execute input w = execute_loop input (int i) w'"
    "pipeline_context w' = pipeline_context w" "llm_calls w' = llm_calls w + i"
    using assms(1) le by (rule execute_reaches)
  have "execute_loop input (int i) w' =
     (Inl (InvalidOutputValueMismatch ''Invalid response of LLM Call''),
      logger_log (llm_response_message response) (llm_called w'))"
    using assms(2,3) w'(2,3) try_body_no_marker [OF assms(4)]
    by (intro execute_loop_fail) simp_all
  then show "fst (execute input w) = Inl (InvalidOutputValueMismatch ''Invalid response of LLM Call'')"
    and "llm_calls (snd (execute input w)) = llm_calls w + i + 1"
    and "last (logger (snd (execute input w))) = llm_response_message response"
    using w' by simp_all
qed

lemma execute_attempt_retries:
  assumes "\<forall>j<i. \<exists>r. llm (config (pipeline_context w)) input (llm_calls w + j) = Inr r \<and> no_marker r"
    and "int i < max_retries (config (pipeline_context w))"
    and "llm (config (pipeline_context w)) input (llm_calls w + i) = Inr response"
    and "no_marker response"
  shows "llm_calls w + i + 2 \<le> llm_calls (snd (execute input w))"
proof -
  have "\<forall>j<Suc i. \<exists>r. llm (config (pipeline_context w)) input (llm_calls w + j) = Inr r \<and> no_marker r"
    using assms(1,3,4) by (auto simp: less_Suc_eq)
  moreover have "int (Suc i) \<le> max_retries (config (pipeline_context w))"
    using assms(2) by simp
  ultimately obtain w' where w': "execute input w = execute_loop input (int (Suc i)) w'"
    "pipeline_context w' = pipeline_context w" "llm_calls w' = llm_calls w + Suc i"
    by (rule execute_reaches)
  have "int (Suc i) \<le> max_retries (config (pipeline_context w'))"
    using assms(2) w'(2) by simp
  then have "Suc (llm_calls w') \<le> llm_calls (snd (execute_loop input (int (Suc i)) w'))"
    by (rule execute_loop_calls)
  then show ?thesis using w' by simp
qed

lemma execute_attempt_raises:
  assumes "\<forall>j<i. \<exists>r. llm (config (pipeline_context w)) input (llm_calls w + j) = Inr r \<and> no_marker r"
    and "int i \<le> max_retries (config (pipeline_context w))"
    and "llm (config (pipeline_context w)) input (llm_calls w + i) = Inl e"
  shows "fst (execute input w) = Inl e"
    and "llm_calls (snd (execute input w)) = llm_calls w + i + 1"
    and "pipeline_context (snd (execute input w)) = pipeline_context w"
proof -
  obtain w' where w': "execute input w = execute_loop input (int i) w'"
    "pipeline_context w' = pipeline_context w" "llm_calls w' = llm_calls w + i"
    using assms(1,2) by (rule execute_reaches)
  have "execute_loop input (int i) w' = (Inl e, llm_called w')"
    using assms(2,3) w'(2,3) by (intro execute_loop_raise) simp_all
  then show "fst (execute input w) = Inl e"
    and "llm_calls (snd (execute input w)) = llm_calls w + i + 1"
    and "pipeline_context (snd (execute input w)) = pipeline_context w"
    using w' by simp_all
qed

lemma generate_BaseCallBack:
  "generate BaseCallBack text = Inl (MethodNotImplementedError ''Must have implemented this.'')"
  by (simp add: generate_def)

section \<open>Properties of the callbacks\<close>

text \<open>
  C10. \<open>on_code\<close> of \<open>BaseCallBack\<close> raises \<open>MethodNotImplementedError\<close> for every
  input string, and \<open>on_code\<close> of \<open>StdoutCallBack\<close> raises nothing for any input
  string: it returns, having written the response and a newline to standard output, so
  a collaborator that notifies it returns its text. The core does not catch the error:
  when the collaborator called on a reached attempt of \<open>execute\<close> notifies a
  \<open>BaseCallBack\<close>, \<open>execute\<close> raises that \<open>MethodNotImplementedError\<close> to its caller
  at once, also when retries are left, with no further call and the context as it was.
\<close>

theorem on_code_capability:
  "on_code BaseCallBack response out =
     Inl (MethodNotImplementedError ''Must have implemented this.'')
   \<and> on_code StdoutCallBack response out = Inr (out @ response @ [CHR 0x0A])
   \<and> generate StdoutCallBack response = Inr response
   \<and> ((\<forall>j<i. \<exists>r. llm (config (pipeline_context w)) input (llm_calls w + j) = Inr r \<and> no_marker r)
        \<and> int i \<le> max_retries (config (pipeline_context w))
        \<and> llm (config (pipeline_context w)) input (llm_calls w + i) = generate BaseCallBack text
      \<longrightarrow> fst (execute input w) = Inl (MethodNotImplementedError ''Must have implemented this.'')
        \<and> llm_calls (snd (execute input w)) = llm_calls w + i + 1
        \<and> pipeline_context (snd (execute input w)) = pipeline_context w)"
proof (intro conjI impI)
  show "on_code BaseCallBack response out =
     Inl (MethodNotImplementedError ''Must have implemented this.'')" by simp
  show "on_code StdoutCallBack response out = Inr (out @ response @ [CHR 0x0A])" by simp
  show "generate StdoutCallBack response = Inr response" by (simp add: generate_def)
next
  assume a: "(\<forall>j<i. \<exists>r. llm (config (pipeline_context w)) input (llm_calls w + j) = Inr r \<and> no_marker r)
        \<and> int i \<le> max_retries (config (pipeline_context w))
        \<and> llm (config (pipeline_context w)) input (llm_calls w + i) = generate BaseCallBack text"
  then have reach: "\<forall>j<i. \<exists>r. llm (config (pipeline_context w)) input (llm_calls w + j) = Inr r \<and> no_marker r"
    and le: "int i \<le> max_retries (config (pipeline_context w))"
    and resp: "llm (config (pipeline_context w)) input (llm_calls w + i) =
       Inl (MethodNotImplementedError ''Must have implemented this.'')"
    by (simp_all add: generate_BaseCallBack)
  show "fst (execute input w) = Inl (MethodNotImplementedError ''Must have implemented this.'')"
    by (rule execute_attempt_raises(1) [OF reach le resp])
  show "llm_calls (snd (execute input w)) = llm_calls w + i + 1"
    by (rule execute_attempt_raises(2) [OF reach le resp])
  show "pipeline_context (snd (execute input w)) = pipeline_context w"
    by (rule execute_attempt_raises(3) [OF reach le resp])
qed

theorem on_code_capability_witness:
  "fst (execute () (start 2 (\<lambda>input k.
      if k = 0 then Inr ''garbage'' else generate BaseCallBack ''print(1)''))) =
     Inl (MethodNotImplementedError ''Must have implemented this.'')
   \<and> llm_calls (snd (execute () (start 2 (\<lambda>input k.
      if k = 0 then Inr ''garbage'' else generate BaseCallBack ''print(1)'')))) = 2
   \<and> log (pipeline_context (snd (execute () (start 2 (\<lambda>input k.
      if k = 0 then Inr ''garbage'' else generate BaseCallBack ''print(1)''))))) = []"
  using on_code_capability [of _ _ 1
      "start 2 (\<lambda>input k. if k = 0 then Inr ''garbage'' else generate BaseCallBack ''print(1)'')"
      "()" "''print(1)''"]
  by (simp add: start_def no_marker_def)

section \<open>Properties of the constructor\<close>

text \<open>
  C7. Constructing an \<open>AzureOpenAI\<close> with a missing API key, endpoint base, API version
  or deployment name should fail with the error of that kind, and construction with all
  four present should raise none of them. The constructor does not do that: which error
  its three credential tests raise, if any, is the same whatever is passed for
  \<open>api_token\<close>, \<open>api_base\<close> and \<open>api_version\<close>, because the tests read attributes
  of \<open>self\<close> that the constructor never assigns from its arguments. With all four
  arguments present the construction raises \<open>AttributeError\<close> when the attribute
  \<open>api_token\<close> is unset and the missing-key error when it is \<open>None\<close>; with the three
  credentials absent it raises nothing when the attributes already hold values.
\<close>

theorem AzureOpenAI_init_ignores_credentials:
  "raised (AzureOpenAI_init self token base version deployment_name chat) =
   raised (AzureOpenAI_init self token' base' version' deployment_name chat')
   \<and> AzureOpenAI_init \<lparr>api_token = Unset, api_base = Unset, api_version = Unset\<rparr>
       (Some ''sk-test'') (Some ''https://example.openai.azure.com/'') (Some ''2023-05-15'')
       (Some ''gpt-35'') True = Inl (AttributeError ''api_token'')
   \<and> AzureOpenAI_init \<lparr>api_token = IsNone, api_base = IsNone, api_version = IsNone\<rparr>
       (Some ''sk-test'') (Some ''https://example.openai.azure.com/'') (Some ''2023-05-15'')
       (Some ''gpt-35'') True =
       Inl (APIKeyNotFoundError
         (''Azure OpenAI key is required. Please add an environment variable '' @
          ''`OPENAI_API_KEY` or pass `api_token` as a named parameter''))
   \<and> raised (AzureOpenAI_init
        \<lparr>api_token = Value ''inherited'', api_base = Value ''inherited'',
         api_version = Value ''inherited''\<rparr>
       None None None (Some ''gpt-35'') True) = None"
  by (simp add: AzureOpenAI_init_def raised_def Let_def split: attr.splits option.splits)

section \<open>Properties of LLMCall.execute\<close>

subsection \<open>Verdicts\<close>

text \<open>
  C4. When the attempt numbered \<open>i\<close> is reached (every earlier response had neither
  marker, and \<open>i\<close> is within the retry bound) and its response contains \<open><Yes>\<close> and
  not \<open><No>\<close>, \<open>execute\<close> returns on that attempt with result true; when it contains
  \<open><No>\<close> and not \<open><Yes>\<close>, \<open>execute\<close> returns on that attempt with result false, and
  the output is a successful one all the same.
\<close>

theorem execute_verdict:
  assumes "\<forall>j<i. \<exists>r. llm (config (pipeline_context w)) input (llm_calls w + j) = Inr r \<and> no_marker r"
    and "int i \<le> max_retries (config (pipeline_context w))"
    and "llm (config (pipeline_context w)) input (llm_calls w + i) = Inr response"
  shows "(str_in ''<Yes>'' response \<and> \<not> str_in ''<No>'' response \<longrightarrow>
           fst (execute input w) =
             Inr (Some \<lparr>result = True, success = True, message = ''Code Generated Successfully'',
                        payload = [(''content_type'', ''string''), (''value'', response)]\<rparr>)
           \<and> llm_calls (snd (execute input w)) = llm_calls w + i + 1)
       \<and> (str_in ''<No>'' response \<and> \<not> str_in ''<Yes>'' response \<longrightarrow>
           fst (execute input w) =
             Inr (Some \<lparr>result = False, success = True, message = ''Code Generated Successfully'',
                        payload = [(''content_type'', ''string''), (''value'', response)]\<rparr>)
           \<and> llm_calls (snd (execute input w)) = llm_calls w + i + 1)"
proof -
  obtain w' where w': "execute input w = execute_loop input (int i) w'"
    "pipeline_context w' = pipeline_context w" "llm_calls w' = llm_calls w + i"
    using assms(1,2) by (rule execute_reaches)
  have le: "int i \<le> max_retries (config (pipeline_context w'))" using assms(2) w'(2) by simp
  have resp: "llm (config (pipeline_context w')) input (llm_calls w') = Inr response"
    using assms(3) w'(2,3) by simp
  have yes: "fst (execute input w) =
             Inr (Some \<lparr>result = True, success = True, message = ''Code Generated Successfully'',
                        payload = [(''content_type'', ''string''), (''value'', response)]\<rparr>)
           \<and> llm_calls (snd (execute input w)) = llm_calls w + i + 1"
    if "str_in ''<Yes>'' response"
    using execute_loop_return [OF le resp try_body_yes [OF that]] w' by simp
  have no: "fst (execute input w) =
             Inr (Some \<lparr>result = False, success = True, message = ''Code Generated Successfully'',
                        payload = [(''content_type'', ''string''), (''value'', response)]\<rparr>)
           \<and> llm_calls (snd (execute input w)) = llm_calls w + i + 1"
    if "\<not> str_in ''<Yes>'' response" "str_in ''<No>'' response"
    using execute_loop_return [OF le resp try_body_no [OF that]] w' by simp
  show ?thesis using yes no by blast
qed

theorem execute_verdict_witness:
  "fst (execute () (start 2 (scripted [''garbage'', ''garbage'', ''<Yes> looks correct'']))) =
     Inr (Some \<lparr>result = True, success = True, message = ''Code Generated Successfully'',
        payload = [(''content_type'', ''string''), (''value'', ''<Yes> looks correct'')]\<rparr>)
   \<and> llm_calls (snd (execute () (start 2 (scripted [''garbage'', ''garbage'', ''<Yes> looks correct''])))) = 3
   \<and> fst (execute () (start 0 (always ''not right: <No>''))) =
     Inr (Some \<lparr>result = False, success = True, message = ''Code Generated Successfully'',
        payload = [(''content_type'', ''string''), (''value'', ''not right: <No>'')]\<rparr>)
   \<and> llm_calls (snd (execute () (start 0 (always ''not right: <No>'')))) = 1"
  using execute_verdict
    [of 2 "start 2 (scripted [''garbage'', ''garbage'', ''<Yes> looks correct''])" "()"
        "''<Yes> looks correct''"]
    execute_verdict [of 0 "start 0 (always ''not right: <No>'')" "()" "''not right: <No>''"]
  by (simp add: start_def scripted_def always_def no_marker_def less_Suc_eq numeral_2_eq_2)

text \<open>
  C1, as stated, fails: a response with both markers is not treated as malformed. With
  a retry bound of 1 and a backend that always returns \<open><Yes><No>\<close>, \<open>execute\<close> calls
  the backend once and returns result true.
\<close>

theorem both_markers_counterexample:
  "str_in ''<Yes>'' ''<Yes><No>'' \<and> str_in ''<No>'' ''<Yes><No>''
   \<and> fst (execute () (start 1 (always ''<Yes><No>''))) =
     Inr (Some \<lparr>result = True, success = True, message = ''Code Generated Successfully'',
        payload = [(''content_type'', ''string''), (''value'', ''<Yes><No>'')]\<rparr>)
   \<and> llm_calls (snd (execute () (start 1 (always ''<Yes><No>'')))) = 1"
proof -
  let ?w = "start 1 (always ''<Yes><No>'')"
  have yes: "str_in ''<Yes>'' ''<Yes><No>''" and no: "str_in ''<No>'' ''<Yes><No>''" by simp_all
  have reach: "\<forall>j<0. \<exists>r. llm (config (pipeline_context ?w)) () (llm_calls ?w + j) = Inr r \<and> no_marker r"
    by simp
  have le: "int 0 \<le> max_retries (config (pipeline_context ?w))" by (simp add: start_def)
  have resp: "llm (config (pipeline_context ?w)) () (llm_calls ?w + 0) = Inr ''<Yes><No>''"
    by (simp add: start_def always_def)
  show ?thesis
    using execute_attempt_returns(1,2) [OF reach le resp] yes no
    by (simp add: start_def no_marker_def)
qed

text \<open>
  C1, amended. A response with neither marker is malformed: with retries left the
  backend is called again, and on the last allowed attempt \<open>execute\<close> raises
  \<open>InvalidOutputValueMismatch\<close>. A response that contains \<open><Yes>\<close> is accepted with
  result true whether or not it also contains \<open><No>\<close>: the affirmative marker takes
  precedence.
\<close>

theorem execute_marker_precedence:
  assumes "\<forall>j<i. \<exists>r. llm (config (pipeline_context w)) input (llm_calls w + j) = Inr r \<and> no_marker r"
    and "int i \<le> max_retries (config (pipeline_context w))"
    and "llm (config (pipeline_context w)) input (llm_calls w + i) = Inr response"
  shows "(no_marker response \<and> int i < max_retries (config (pipeline_context w)) \<longrightarrow>
            llm_calls w + i + 2 \<le> llm_calls (snd (execute input w)))
       \<and> (no_marker response \<and> int i = max_retries (config (pipeline_context w)) \<longrightarrow>
            fst (execute input w) = Inl (InvalidOutputValueMismatch ''Invalid response of LLM Call'')
            \<and> llm_calls (snd (execute input w)) = llm_calls w + i + 1)
       \<and> (str_in ''<Yes>'' response \<longrightarrow>
            fst (execute input w) =
              Inr (Some \<lparr>result = True, success = True, message = ''Code Generated Successfully'',
                         payload = [(''content_type'', ''string''), (''value'', response)]\<rparr>)
            \<and> llm_calls (snd (execute input w)) = llm_calls w + i + 1)"
proof (intro conjI impI)
  assume "no_marker response \<and> int i < max_retries (config (pipeline_context w))"
  then show "llm_calls w + i + 2 \<le> llm_calls (snd (execute input w))"
    using execute_attempt_retries [OF assms(1) _ assms(3)] by blast
next
  assume a: "no_marker response \<and> int i = max_retries (config (pipeline_context w))"
  then show "fst (execute input w) = Inl (InvalidOutputValueMismatch ''Invalid response of LLM Call'')"
    using execute_attempt_fails(1) [OF assms(1) _ assms(3)] by blast
  from a show "llm_calls (snd (execute input w)) = llm_calls w + i + 1"
    using execute_attempt_fails(2) [OF assms(1) _ assms(3)] by blast
next
  assume y: "str_in ''<Yes>'' response"
  show "fst (execute input w) =
      Inr (Some \<lparr>result = True, success = True, message = ''Code Generated Successfully'',
                 payload = [(''content_type'', ''string''), (''value'', response)]\<rparr>)"
    using execute_attempt_returns(1) [OF assms] y by (simp add: no_marker_def)
  show "llm_calls (snd (execute input w)) = llm_calls w + i + 1"
    using execute_attempt_returns(2) [OF assms] y by (simp add: no_marker_def)
qed

theorem execute_marker_precedence_witness:
  "2 \<le> llm_calls (snd (execute () (start 1 (always ''garbage''))))
   \<and> fst (execute () (start 0 (always ''garbage''))) =
       Inl (InvalidOutputValueMismatch ''Invalid response of LLM Call'')
   \<and> llm_calls (snd (execute () (start 0 (always ''garbage'')))) = 1
   \<and> fst (execute () (start 1 (always ''<Yes><No>''))) =
       Inr (Some \<lparr>result = True, success = True, message = ''Code Generated Successfully'',
          payload = [(''content_type'', ''string''), (''value'', ''<Yes><No>'')]\<rparr>)
   \<and> llm_calls (snd (execute () (start 1 (always ''<Yes><No>'')))) = 1"
  using execute_marker_precedence [of 0 "start 1 (always ''garbage'')" "()" "''garbage''"]
    execute_marker_precedence [of 0 "start 0 (always ''garbage'')" "()" "''garbage''"]
    execute_marker_precedence [of 0 "start 1 (always ''<Yes><No>'')" "()" "''<Yes><No>''"]
  by (simp add: start_def always_def no_marker_def)

subsection \<open>The bound on retries\<close>

text \<open>
  C2, as stated, fails for a backend whose responses always contain both markers: with a
  retry bound of 2 and a backend that always returns \<open><No><Yes>\<close>, \<open>execute\<close> calls the
  backend once and returns result true instead of raising after three calls.
\<close>

theorem always_both_markers_counterexample:
  "str_in ''<Yes>'' ''<No><Yes>'' \<and> str_in ''<No>'' ''<No><Yes>''
   \<and> fst (execute () (start 2 (always ''<No><Yes>''))) =
     Inr (Some \<lparr>result = True, success = True, message = ''Code Generated Successfully'',
        payload = [(''content_type'', ''string''), (''value'', ''<No><Yes>'')]\<rparr>)
   \<and> llm_calls (snd (execute () (start 2 (always ''<No><Yes>'')))) = 1"
proof -
  let ?w = "start 2 (always ''<No><Yes>'')"
  have yes: "str_in ''<Yes>'' ''<No><Yes>''" and no: "str_in ''<No>'' ''<No><Yes>''" by simp_all
  have reach: "\<forall>j<0. \<exists>r. llm (config (pipeline_context ?w)) () (llm_calls ?w + j) = Inr r \<and> no_marker r"
    by simp
  have le: "int 0 \<le> max_retries (config (pipeline_context ?w))" by (simp add: start_def)
  have resp: "llm (config (pipeline_context ?w)) () (llm_calls ?w + 0) = Inr ''<No><Yes>''"
    by (simp add: start_def always_def)
  show ?thesis
    using execute_attempt_returns(1,2) [OF reach le resp] yes no
    by (simp add: start_def no_marker_def)
qed

text \<open>
  C2, amended. For every retry bound \<open>k \<ge> 0\<close> and every backend whose responses
  always contain neither marker, \<open>execute\<close> calls the backend exactly \<open>k + 1\<close> times
  and then raises \<open>InvalidOutputValueMismatch\<close>: there is no further call and no
  default verdict.
\<close>

theorem execute_exhausts_retries:
  assumes "0 \<le> max_retries (config (pipeline_context w))"
    and "\<forall>k. \<exists>r. llm (config (pipeline_context w)) input k = Inr r \<and> no_marker r"
  shows "fst (execute input w) = Inl (InvalidOutputValueMismatch ''Invalid response of LLM Call'')
    \<and> llm_calls (snd (execute input w)) =
        llm_calls w + nat (max_retries (config (pipeline_context w))) + 1"
proof -
  let ?i = "nat (max_retries (config (pipeline_context w)))"
  have reach: "\<forall>j<?i. \<exists>r. llm (config (pipeline_context w)) input (llm_calls w + j) = Inr r \<and> no_marker r"
    using assms(2) by blast
  have eq: "int ?i = max_retries (config (pipeline_context w))" using assms(1) by simp
  obtain r where r: "llm (config (pipeline_context w)) input (llm_calls w + ?i) = Inr r" "no_marker r"
    using assms(2) by blast
  show ?thesis
    using execute_attempt_fails(1,2) [OF reach eq r] by simp
qed

theorem execute_exhausts_retries_witness:
  "fst (execute () (start 2 (always ''garbage''))) =
     Inl (InvalidOutputValueMismatch ''Invalid response of LLM Call'')
   \<and> llm_calls (snd (execute () (start 2 (always ''garbage'')))) = 3"
  using execute_exhausts_retries [of "start 2 (always ''garbage'')" "()"]
  by (simp add: start_def always_def no_marker_def)

text \<open>
  C3. When the backend raises on the attempt numbered \<open>i\<close>, also when retries are
  left, \<open>execute\<close> raises that same error and has made no further call of the backend:
  the call on attempt \<open>i\<close> is its last.
\<close>

theorem execute_transport_error_propagates:
  assumes "\<forall>j<i. \<exists>r. llm (config (pipeline_context w)) input (llm_calls w + j) = Inr r \<and> no_marker r"
    and "int i \<le> max_retries (config (pipeline_context w))"
    and "llm (config (pipeline_context w)) input (llm_calls w + i) = Inl e"
  shows "fst (execute input w) = Inl e
    \<and> llm_calls (snd (execute input w)) = llm_calls w + i + 1"
proof -
  obtain w' where w': "execute input w = execute_loop input (int i) w'"
    "pipeline_context w' = pipeline_context w" "llm_calls w' = llm_calls w + i"
    using assms(1,2) by (rule execute_reaches)
  have "execute_loop input (int i) w' = (Inl e, llm_called w')"
    using assms(2,3) w'(2,3) by (intro execute_loop_raise) simp_all
  then show ?thesis using w' by simp
qed

theorem execute_transport_error_propagates_witness:
  "fst (execute () (start 2 (scripted [''garbage'']))) = Inl (TransportError ''connection reset'')
   \<and> llm_calls (snd (execute () (start 2 (scripted [''garbage''])))) = 2"
  using execute_transport_error_propagates
    [of 1 "start 2 (scripted [''garbage''])" "()" "TransportError ''connection reset''"]
  by (simp add: start_def scripted_def no_marker_def)

subsection \<open>What a failure tells the caller\<close>

text \<open>
  C6, as stated, fails: the error raised after the retries are used up carries neither
  the last response nor the number of retries. A run with no retry and last response
  \<open>garbage\<close> and a run with three retries and last response \<open>maybe\<close> raise the same
  error value.
\<close>

theorem failure_error_counterexample:
  "fst (execute () (start 0 (always ''garbage''))) =
     Inl (InvalidOutputValueMismatch ''Invalid response of LLM Call'')
   \<and> fst (execute () (start 3 (always ''maybe''))) =
     Inl (InvalidOutputValueMismatch ''Invalid response of LLM Call'')
   \<and> llm_calls (snd (execute () (start 0 (always ''garbage'')))) = 1
   \<and> llm_calls (snd (execute () (start 3 (always ''maybe'')))) = 4"
proof -
  let ?a = "start 0 (always ''garbage'')" and ?b = "start 3 (always ''maybe'')"
  have a: "fst (execute () ?a) = Inl (InvalidOutputValueMismatch ''Invalid response of LLM Call'')
      \<and> llm_calls (snd (execute () ?a)) = 1"
    using execute_attempt_fails(1,2) [of 0 ?a "()" "''garbage''"]
    by (simp add: start_def always_def no_marker_def)
  have b: "fst (execute () ?b) = Inl (InvalidOutputValueMismatch ''Invalid response of LLM Call'')
      \<and> llm_calls (snd (execute () ?b)) = 4"
    using execute_attempt_fails(1,2) [of 3 ?b "()" "''maybe''"]
    by (simp add: start_def always_def no_marker_def)
  show ?thesis using a b by simp
qed

text \<open>
  C6, amended. When \<open>execute\<close> fails after using up its retries, the error raised is
  \<open>InvalidOutputValueMismatch\<close> with the fixed message \<open>Invalid response of LLM Call\<close>;
  the last malformed response is reported to the logger only, as the last message it
  received.
\<close>

theorem execute_failure_message_fixed:
  assumes "0 \<le> max_retries (config (pipeline_context w))"
    and "\<forall>j<nat (max_retries (config (pipeline_context w))).
           \<exists>r. llm (config (pipeline_context w)) input (llm_calls w + j) = Inr r \<and> no_marker r"
    and "llm (config (pipeline_context w)) input
           (llm_calls w + nat (max_retries (config (pipeline_context w)))) = Inr response"
    and "no_marker response"
  shows "fst (execute input w) = Inl (InvalidOutputValueMismatch ''Invalid response of LLM Call'')
    \<and> last (logger (snd (execute input w))) = llm_response_message response"
proof -
  have eq: "int (nat (max_retries (config (pipeline_context w)))) =
      max_retries (config (pipeline_context w))" using assms(1) by simp
  show ?thesis
    using execute_attempt_fails(1,3) [OF assms(2) eq assms(3,4)] by simp
qed

theorem execute_failure_message_fixed_witness:
  "fst (execute () (start 1 (scripted [''garbage'', ''still garbage'']))) =
     Inl (InvalidOutputValueMismatch ''Invalid response of LLM Call'')
   \<and> last (logger (snd (execute () (start 1 (scripted [''garbage'', ''still garbage''])))))
       = llm_response_message ''still garbage''"
  using execute_failure_message_fixed
    [of "start 1 (scripted [''garbage'', ''still garbage''])" "()" "''still garbage''"]
  by (simp add: start_def scripted_def no_marker_def)

subsection \<open>The context and the logger\<close>

text \<open>
  C5. After \<open>execute\<close> has returned an output, the log of the context is the log from
  before the run followed by exactly one entry, with key \<open>llm_call\<close> and the raw text
  of the last response as value, however many malformed attempts came before; the
  output has success true, the message \<open>Code Generated Successfully\<close> and the payload
  with content type \<open>string\<close> and that same text as value.
\<close>

theorem execute_success_log:
  assumes "fst (execute input w) = Inr (Some out)"
  shows "\<exists>response.
      llm (config (pipeline_context w)) input (llm_calls (snd (execute input w)) - 1) = Inr response
    \<and> llm_calls w < llm_calls (snd (execute input w))
    \<and> log (pipeline_context (snd (execute input w))) =
        log (pipeline_context w) @ [(''llm_call'', response)]
    \<and> success out \<and> message out = ''Code Generated Successfully''
    \<and> payload out = [(''content_type'', ''string''), (''value'', response)]"
  using execute_loop_success [of input 0 w out] assms unfolding execute_def by simp

theorem execute_success_log_witness:
  "fst (execute () (start 2 (scripted [''garbage'', ''garbage'', ''<Yes> looks correct'']))) =
     Inr (Some \<lparr>result = True, success = True, message = ''Code Generated Successfully'',
        payload = [(''content_type'', ''string''), (''value'', ''<Yes> looks correct'')]\<rparr>)
   \<and> log (pipeline_context (snd (execute ()
         (start 2 (scripted [''garbage'', ''garbage'', ''<Yes> looks correct'']))))) =
       [(''llm_call'', ''<Yes> looks correct'')]"
proof -
  let ?w = "start 2 (scripted [''garbage'', ''garbage'', ''<Yes> looks correct''])"
  let ?out = "\<lparr>result = True, success = True, message = ''Code Generated Successfully'',
        payload = [(''content_type'', ''string''), (''value'', ''<Yes> looks correct'')]\<rparr>"
  have reach: "\<forall>j<2. \<exists>r. llm (config (pipeline_context ?w)) () (llm_calls ?w + j) = Inr r \<and> no_marker r"
    by (simp add: start_def scripted_def no_marker_def less_Suc_eq numeral_2_eq_2)
  have le: "int 2 \<le> max_retries (config (pipeline_context ?w))" by (simp add: start_def)
  have resp: "llm (config (pipeline_context ?w)) () (llm_calls ?w + 2) = Inr ''<Yes> looks correct''"
    by (simp add: start_def scripted_def)
  have yes: "str_in ''<Yes>'' ''<Yes> looks correct''" by simp
  have ok: "fst (execute () ?w) = Inr (Some ?out)"
    using execute_attempt_returns(1) [OF reach le resp] yes by (simp add: no_marker_def)
  obtain response where
    "log (pipeline_context (snd (execute () ?w))) = log (pipeline_context ?w) @ [(''llm_call'', response)]"
    "payload ?out = [(''content_type'', ''string''), (''value'', response)]"
    using execute_success_log [OF ok] by blast
  then have "log (pipeline_context (snd (execute () ?w))) = [(''llm_call'', ''<Yes> looks correct'')]"
    by (simp add: start_def)
  then show ?thesis using ok by simp
qed

text \<open>
  C8. On every attempt on which the backend returns a text, \<open>execute\<close> hands that text
  to the logger right after the call and before anything else happens: the events of a
  run are, attempt by attempt and in the order of the attempts, the call of the backend
  followed by the logger's message for its response, and after the last of them the
  entry added to the context when the run returns an output. So the logger receives one
  message for each response, malformed or not, in the order of the attempts, each before
  the next call of the backend, and exactly one for the response that succeeds. Each
  message holds the raw text of its response: the messages the logger received during
  the run contain, one for one and in order, the texts the backend returned.
\<close>

theorem execute_logger_trace:
  "events (snd (execute input w)) =
     events w @
     attempt_events (llm (config (pipeline_context w)) input) (llm_calls w)
       (llm_calls (snd (execute input w))) @
     final_events (fst (execute input w))
   \<and> logger (snd (execute input w)) =
     logger w @ map llm_response_message
       (returned_texts (llm (config (pipeline_context w)) input) (llm_calls w)
          (llm_calls (snd (execute input w))))
   \<and> llm_calls w \<le> llm_calls (snd (execute input w))
   \<and> list_all2 (\<lambda>msg response. str_in response msg)
       (drop (length (logger w)) (logger (snd (execute input w))))
       (returned_texts (llm (config (pipeline_context w)) input) (llm_calls w)
          (llm_calls (snd (execute input w))))
   \<and> str_in response (llm_response_message response)"
proof -
  let ?ts = "returned_texts (llm (config (pipeline_context w)) input) (llm_calls w)
          (llm_calls (snd (execute input w)))"
  have ev: "events (snd (execute input w)) =
     events w @
     attempt_events (llm (config (pipeline_context w)) input) (llm_calls w)
       (llm_calls (snd (execute input w))) @
     final_events (fst (execute input w))"
    unfolding execute_def by (rule execute_loop_events)
  have lg: "logger (snd (execute input w)) = logger w @ map llm_response_message ?ts"
    unfolding execute_def by (rule execute_loop_logger)
  have mono: "llm_calls w \<le> llm_calls (snd (execute input w))"
    unfolding execute_def by (rule execute_loop_calls_mono)
  have "list_all2 (\<lambda>msg response. str_in response msg) (map llm_response_message ?ts) ?ts"
    by (simp add: list_all2_map1 list_all2_same llm_response_message_holds)
  then have each: "list_all2 (\<lambda>msg response. str_in response msg)
       (drop (length (logger w)) (logger (snd (execute input w)))) ?ts"
    by (simp add: lg)
  show ?thesis using ev lg mono each llm_response_message_holds by blast
qed

theorem execute_logger_trace_example:
  "events (snd (execute () (start 2 (scripted [''garbage'', ''garbage'', ''<Yes> looks correct''])))) =
     [LlmCall 0,
      LoggerLog (''LLM response:'' @ [CHR 0x0A] @ ''                    garbage'' @
                 [CHR 0x0A] @ ''                    ''),
      LlmCall 1,
      LoggerLog (''LLM response:'' @ [CHR 0x0A] @ ''                    garbage'' @
                 [CHR 0x0A] @ ''                    ''),
      LlmCall 2,
      LoggerLog (''LLM response:'' @ [CHR 0x0A] @ ''                    <Yes> looks correct'' @
                 [CHR 0x0A] @ ''                    ''),
      ContextAdd ''llm_call'' ''<Yes> looks correct'']
   \<and> logger (snd (execute () (start 2 (scripted [''garbage'', ''garbage'', ''<Yes> looks correct''])))) =
     [''LLM response:'' @ [CHR 0x0A] @ ''                    garbage'' @
        [CHR 0x0A] @ ''                    '',
      ''LLM response:'' @ [CHR 0x0A] @ ''                    garbage'' @
        [CHR 0x0A] @ ''                    '',
      ''LLM response:'' @ [CHR 0x0A] @ ''                    <Yes> looks correct'' @
        [CHR 0x0A] @ ''                    '']"
proof -
  let ?w = "start 2 (scripted [''garbage'', ''garbage'', ''<Yes> looks correct''])"
  let ?out = "\<lparr>result = True, success = True, message = ''Code Generated Successfully'',
        payload = [(''content_type'', ''string''), (''value'', ''<Yes> looks correct'')]\<rparr>"
  have reach: "\<forall>j<2. \<exists>r. llm (config (pipeline_context ?w)) () (llm_calls ?w + j) = Inr r \<and> no_marker r"
    by (simp add: start_def scripted_def no_marker_def less_Suc_eq numeral_2_eq_2)
  have le: "int 2 \<le> max_retries (config (pipeline_context ?w))" by (simp add: start_def)
  have resp: "llm (config (pipeline_context ?w)) () (llm_calls ?w + 2) = Inr ''<Yes> looks correct''"
    by (simp add: start_def scripted_def)
  have yes: "\<not> no_marker ''<Yes> looks correct''" by (simp add: no_marker_def)
  have ok: "fst (execute () ?w) = Inr (Some ?out)"
    using execute_attempt_returns(1) [OF reach le resp yes] by simp
  have calls: "llm_calls (snd (execute () ?w)) = 3"
    using execute_attempt_returns(2) [OF reach le resp yes] by (simp add: start_def)
  have upt: "[0..<3] = [0, 1, 2]" by (simp add: upt_conv_Cons)
  have rep: "replicate 20 (CHR '' '') = ''                    ''"
    by (simp add: numeral_eq_Suc)
  show ?thesis
    using execute_logger_trace [of "()" ?w]
    unfolding ok calls
    by (simp add: start_def scripted_def attempt_events_def returned_texts_def final_events_def
        upt llm_response_message_def rep)
qed

text \<open>
  C9. Whenever \<open>execute\<close> raises, whether the backend raised or the retries were used
  up, the pipeline context is as it was before the run: no entry has been added to
  it.
\<close>

theorem execute_error_leaves_context:
  assumes "fst (execute input w) = Inl e"
  shows "pipeline_context (snd (execute input w)) = pipeline_context w"
  using execute_loop_error_context [of input 0 w e] assms unfolding execute_def by simp

theorem execute_error_leaves_context_witness:
  "fst (execute () (start 1 (always ''garbage''))) =
     Inl (InvalidOutputValueMismatch ''Invalid response of LLM Call'')
   \<and> pipeline_context (snd (execute () (start 1 (always ''garbage'')))) =
       pipeline_context (start 1 (always ''garbage''))
   \<and> fst (execute () (start 1 (scripted []))) = Inl (TransportError ''connection reset'')
   \<and> pipeline_context (snd (execute () (start 1 (scripted [])))) =
       pipeline_context (start 1 (scripted []))"
proof -
  let ?a = "start 1 (always ''garbage'')" and ?b = "start 1 (scripted [])"
  have a: "fst (execute () ?a) = Inl (InvalidOutputValueMismatch ''Invalid response of LLM Call'')"
    using execute_attempt_fails(1) [of 1 ?a "()" "''garbage''"]
    by (simp add: start_def always_def no_marker_def)
  have "execute () ?b = (Inl (TransportError ''connection reset''), llm_called ?b)"
    unfolding execute_def by (rule execute_loop_raise) (simp_all add: start_def scripted_def)
  then have b: "fst (execute () ?b) = Inl (TransportError ''connection reset'')" by simp
  show ?thesis
    using a b execute_error_leaves_context [OF a] execute_error_leaves_context [OF b] by simp
qed

end
